theory Spec2Isabelle
  imports Main "HOL-Library.AList" "HOL-Library.Sublist"
begin

section \<open>Values and errors\<close>

text \<open>
  A nested document is what \<^verbatim>\<open>json.load\<close> returns: \<^verbatim>\<open>None\<close>, a bool, an int, a
  float, a str, a list or a dict. Python floats are not interpreted here; they are the
  type parameter \<open>'f\<close>. A dict keeps its insertion order, so it is an association list,
  read with \<^const>\<open>map_of\<close> and written with \<^const>\<open>AList.update\<close> (an existing key keeps its
  place, a new key goes to the end).
\<close>

datatype 'f json =
    JNull
  | JBool bool
  | JInt int
  | JFloat 'f
  | JStr string
  | JList "'f json list"
  | JObj "(string \<times> 'f json) list"

text \<open>
  The exceptions the code can raise. \<open>WorkbenchError\<close> is the program's own class and
  carries its message; the others are Python's built-in ones.
\<close>

datatype error =
    WorkbenchError string
  | KeyError string
  | TypeError
  | AttributeError
  | IndexError
  | NameError string
  | FileNotFoundError
  | LoadError

section \<open>String primitives\<close>

text \<open>
  \<^verbatim>\<open>s.split(sep)\<close> for a one-character separator: every occurrence of the separator
  ends a piece, and the result always has at least one piece.
\<close>

fun split_on :: "char \<Rightarrow> string \<Rightarrow> string list" where
  "split_on sep [] = [[]]"
| "split_on sep (c # cs) =
     (if c = sep then [] # split_on sep cs
      else (case split_on sep cs of
              [] \<Rightarrow> [[c]]
            | w # ws \<Rightarrow> (c # w) # ws))"

abbreviation DQUOTE :: char where "DQUOTE \<equiv> CHR 0x22"
abbreviation BSLASH :: char where "BSLASH \<equiv> CHR 0x5C"
abbreviation NEWLINE :: char where "NEWLINE \<equiv> CHR 0x0A"

text \<open>
  A \<^typ>\<open>char\<close> stands for one code point of a Python str; the model covers text whose
  code points are below 256.

  \<^verbatim>\<open>s.startswith(p)\<close> and \<^verbatim>\<open>s.endswith(p)\<close>.
\<close>

definition startswith :: "string \<Rightarrow> string \<Rightarrow> bool" where
  "startswith s p = (take (length p) s = p)"

definition endswith :: "string \<Rightarrow> string \<Rightarrow> bool" where
  "endswith s p = (length p \<le> length s \<and> drop (length s - length p) s = p)"

text \<open>
  \<^verbatim>\<open>s.lstrip(chars)\<close>, \<^verbatim>\<open>s.rstrip(chars)\<close> and \<^verbatim>\<open>s.strip(chars)\<close> remove every
  leading (trailing) character that is in \<^verbatim>\<open>chars\<close>, not just one.
\<close>

definition lstrip :: "string \<Rightarrow> string \<Rightarrow> string" where
  "lstrip chars s = dropWhile (\<lambda>c. c \<in> set chars) s"

definition rstrip :: "string \<Rightarrow> string \<Rightarrow> string" where
  "rstrip chars s = rev (dropWhile (\<lambda>c. c \<in> set chars) (rev s))"

definition strip :: "string \<Rightarrow> string \<Rightarrow> string" where
  "strip chars s = lstrip chars (rstrip chars s)"

text \<open>
  \<^verbatim>\<open>s.strip()\<close> without an argument removes white space: the code points below 256
  for which \<^verbatim>\<open>str.isspace\<close> holds.
\<close>

definition whitespace :: string where
  "whitespace = [CHR 0x09, CHR 0x0A, CHR 0x0B, CHR 0x0C, CHR 0x0D,
                 CHR 0x1C, CHR 0x1D, CHR 0x1E, CHR 0x1F, CHR 0x20, CHR 0x85, CHR 0xA0]"

definition strip_ws :: "string \<Rightarrow> string" where
  "strip_ws s = strip whitespace s"

text \<open>
  \<^verbatim>\<open>s.replace(old, new)\<close>: the occurrences of \<^verbatim>\<open>old\<close> are found from left to right
  and do not overlap. With an empty \<^verbatim>\<open>old\<close>, Python puts \<^verbatim>\<open>new\<close> around every
  character.
\<close>

fun replace :: "string \<Rightarrow> string \<Rightarrow> string \<Rightarrow> string" where
  "replace [] new s = new @ concat (map (\<lambda>c. c # new) s)"
| "replace (a # as) new [] = []"
| "replace (a # as) new (c # cs) =
     (if take (length (a # as)) (c # cs) = a # as
      then new @ replace (a # as) new (drop (length (a # as)) (c # cs))
      else c # replace (a # as) new cs)"

text \<open>
  \<^verbatim>\<open>str(n)\<close> for an int, and \<^verbatim>\<open>int(s)\<close>: white space around the literal is
  ignored, one sign is allowed, and the digits may be grouped by single underscores.
  \<open>py_int\<close> is \<open>None\<close> where \<^verbatim>\<open>int\<close> raises ValueError. The interpreter's limit on the
  number of digits of a literal is not modelled.
\<close>

definition digit_char :: "nat \<Rightarrow> char" where
  "digit_char d = char_of (48 + d)"

fun str_nat :: "nat \<Rightarrow> string" where
  "str_nat n = (if n < 10 then [digit_char n] else str_nat (n div 10) @ [digit_char (n mod 10)])"

declare str_nat.simps [simp del]

definition str_int :: "int \<Rightarrow> string" where
  "str_int i = (if i < 0 then CHR ''-'' # str_nat (nat (- i)) else str_nat (nat i))"

definition is_digit :: "char \<Rightarrow> bool" where
  "is_digit c = (48 \<le> (of_char c :: nat) \<and> (of_char c :: nat) \<le> 57)"

definition digit_val :: "char \<Rightarrow> nat" where
  "digit_val c = of_char c - 48"

fun no_double_underscore :: "string \<Rightarrow> bool" where
  "no_double_underscore (a # b # cs) =
     (\<not> (a = CHR ''_'' \<and> b = CHR ''_'') \<and> no_double_underscore (b # cs))"
| "no_double_underscore _ = True"

definition parse_digits :: "string \<Rightarrow> nat option" where
  "parse_digits ds =
     (if ds \<noteq> [] \<and> is_digit (hd ds) \<and> is_digit (last ds)
         \<and> list_all (\<lambda>c. is_digit c \<or> c = CHR ''_'') ds \<and> no_double_underscore ds
      then Some (foldl (\<lambda>a c. 10 * a + digit_val c) 0 (filter is_digit ds))
      else None)"

definition py_int :: "string \<Rightarrow> int option" where
  "py_int s =
     (case strip_ws s of
        [] \<Rightarrow> None
      | c # cs \<Rightarrow>
          if c = CHR ''-'' then map_option (\<lambda>n. - int n) (parse_digits cs)
          else if c = CHR ''+'' then map_option int (parse_digits cs)
          else map_option int (parse_digits (c # cs)))"

section \<open>The Python runtime\<close>

text \<open>
  What the program takes from the interpreter and the operating system and does not
  define itself is a parameter of the model:
  \<^item> \<open>abspath p\<close> is \<^verbatim>\<open>os.path.abspath(os.path.join(os.getcwd(), p))\<close>;
  \<^item> \<open>json_load\<close> decodes and parses the content of a file as \<^verbatim>\<open>json.load\<close> does,
    \<open>None\<close> when it raises;
  \<^item> \<open>json_dump\<close> is the text that \<^verbatim>\<open>json.dump\<close> writes;
  \<^item> \<open>py_float\<close> is \<^verbatim>\<open>float(s)\<close>, \<open>None\<close> when it raises ValueError;
  \<^item> \<open>py_str\<close> is \<^verbatim>\<open>str(v)\<close> for a float, a list or a dict.
\<close>

record 'f runtime =
  abspath :: "string \<Rightarrow> string"
  json_load :: "string \<Rightarrow> 'f json option"
  json_dump :: "'f json \<Rightarrow> string"
  py_float :: "string \<Rightarrow> 'f option"
  py_str :: "'f json \<Rightarrow> string"

section \<open>Property path accessor\<close>

text \<open>
  \<^verbatim>\<open>get_property_by_path(o, path)\<close> returns \<^verbatim>\<open>None\<close>, here \<^const>\<open>JNull\<close>, when a
  node on the way is not a dict, when a key is missing, and when the value found is not
  an int, a float or a str (a bool is not: its type is \<^verbatim>\<open>bool\<close>).
\<close>

fun get_parts :: "'f json \<Rightarrow> string list \<Rightarrow> 'f json" where
  "get_parts (JInt i) [] = JInt i"
| "get_parts (JFloat x) [] = JFloat x"
| "get_parts (JStr s) [] = JStr s"
| "get_parts _ [] = JNull"
| "get_parts (JObj m) (p # ps) =
     (case map_of m p of None \<Rightarrow> JNull | Some v \<Rightarrow> get_parts v ps)"
| "get_parts _ (p # ps) = JNull"

definition get_property_by_path :: "'f json \<Rightarrow> string \<Rightarrow> 'f json" where
  "get_property_by_path o' path = get_parts o' (split_on CHR ''.'' path)"


text \<open>
  \<^verbatim>\<open>set_property_value(obj, path, value)\<close>. The loop over \<^verbatim>\<open>path_parts[0:-1]\<close> is
  the recursion of \<open>set_parts\<close> on a path of two or more parts; the last part is
  assigned by \<open>set_item\<close>. The source mutates the dicts in place; the model returns
  the rebuilt tree, which is the same tree since a loaded document shares no nodes.

  In the loop, a node that is not a dict reaches \<^verbatim>\<open>dict_sect[part] = {}\<close>, an item
  assignment with a str key that every non-dict document value rejects with TypeError.
  A node that is a dict skips that statement and is indexed by \<^verbatim>\<open>dict_sect[part]\<close>,
  which raises KeyError when the key is missing.
\<close>

fun set_item :: "'f json \<Rightarrow> string \<Rightarrow> 'f json \<Rightarrow> error + 'f json" where
  "set_item (JObj m) k v = Inr (JObj (AList.update k v m))"
| "set_item _ k v = Inl TypeError"

fun set_parts :: "'f json \<Rightarrow> string list \<Rightarrow> 'f json \<Rightarrow> error + 'f json" where
  "set_parts node [] v = Inl IndexError"
| "set_parts node [p] v = set_item node p v"
| "set_parts (JObj m) (p # q # ps) v =
     (case map_of m p of
        None \<Rightarrow> Inl (KeyError p)
      | Some child \<Rightarrow>
          (case set_parts child (q # ps) v of
             Inl e \<Rightarrow> Inl e
           | Inr child' \<Rightarrow> Inr (JObj (AList.update p child' m))))"
| "set_parts _ (p # q # ps) v = Inl TypeError"

definition set_property_value :: "'f json \<Rightarrow> string \<Rightarrow> 'f json \<Rightarrow> error + 'f json" where
  "set_property_value obj path v = set_parts obj (split_on CHR ''.'' path) v"

section \<open>Scalar literal codec\<close>

text \<open>
  \<^verbatim>\<open>str(value)\<close> for a document value that is not a str.
\<close>

fun str_of :: "'f runtime \<Rightarrow> 'f json \<Rightarrow> string" where
  "str_of rt JNull = ''None''"
| "str_of rt (JBool b) = (if b then ''True'' else ''False'')"
| "str_of rt (JInt i) = str_int i"
| "str_of rt v = py_str rt v"

text \<open>
  \<^verbatim>\<open>value_str(value)\<close>: a str is quoted, with every backslash doubled and then every
  double quote preceded by a backslash.
\<close>

fun value_str :: "'f runtime \<Rightarrow> 'f json \<Rightarrow> string" where
  "value_str rt (JStr s) =
     [DQUOTE] @ replace [DQUOTE] [BSLASH, DQUOTE] (replace [BSLASH] [BSLASH, BSLASH] s) @ [DQUOTE]"
| "value_str rt v = str_of rt v"

text \<open>
  \<^verbatim>\<open>parse_value(value_str)\<close>. In the quoted branch the source calls
  \<^verbatim>\<open>strip('"')\<close>, then \<^verbatim>\<open>replace('"', '\\"')\<close>, then \<^verbatim>\<open>replace('\\\\', '\\')\<close>.
\<close>

definition parse_value :: "'f runtime \<Rightarrow> string \<Rightarrow> 'f json" where
  "parse_value rt text =
     (if startswith text [DQUOTE] \<and> endswith text [DQUOTE]
      then JStr (replace [BSLASH, BSLASH] [BSLASH]
                   (replace [DQUOTE] [BSLASH, DQUOTE] (strip [DQUOTE] text)))
      else (case py_int text of
              Some i \<Rightarrow> JInt i
            | None \<Rightarrow>
                (case py_float rt text of
                   Some x \<Rightarrow> JFloat x
                 | None \<Rightarrow> JNull)))"

section \<open>More Python primitives\<close>

text \<open>
  Exceptions propagate: the first failing step decides the result.
\<close>

definition and_then :: "error + 'a \<Rightarrow> ('a \<Rightarrow> error + 'b) \<Rightarrow> error + 'b" where
  "and_then r f = (case r of Inl e \<Rightarrow> Inl e | Inr x \<Rightarrow> f x)"

fun traverse :: "('a \<Rightarrow> error + 'b) \<Rightarrow> 'a list \<Rightarrow> error + 'b list" where
  "traverse f [] = Inr []"
| "traverse f (x # xs) =
     and_then (f x) (\<lambda>y. and_then (traverse f xs) (\<lambda>ys. Inr (y # ys)))"

text \<open>
  \<^verbatim>\<open>d.get(key, default)\<close> on a dict.
\<close>

definition dict_get :: "(string \<times> 'a) list \<Rightarrow> string \<Rightarrow> 'a \<Rightarrow> 'a" where
  "dict_get m k d = (case map_of m k of None \<Rightarrow> d | Some v \<Rightarrow> v)"

text \<open>
  \<^verbatim>\<open>for x in v\<close> over a document value: a list gives its elements, a str its
  characters as one-character strs, a dict its keys; anything else is not iterable.
  \<^verbatim>\<open>len(v)\<close> is defined for the same three kinds of value.
\<close>

fun iter_json :: "'f json \<Rightarrow> error + 'f json list" where
  "iter_json (JList xs) = Inr xs"
| "iter_json (JStr s) = Inr (map (\<lambda>c. JStr [c]) s)"
| "iter_json (JObj m) = Inr (map (\<lambda>kv. JStr (fst kv)) m)"
| "iter_json _ = Inl TypeError"

fun py_len :: "'f json \<Rightarrow> error + nat" where
  "py_len (JList xs) = Inr (length xs)"
| "py_len (JStr s) = Inr (length s)"
| "py_len (JObj m) = Inr (length m)"
| "py_len _ = Inl TypeError"

text \<open>
  \<^verbatim>\<open>sep.join(parts)\<close>.
\<close>

fun join :: "string \<Rightarrow> string list \<Rightarrow> string" where
  "join sep [] = []"
| "join sep [x] = x"
| "join sep (x # y # ys) = x @ sep @ join sep (y # ys)"

text \<open>
  \<^verbatim>\<open>s.find(c)\<close> and \<^verbatim>\<open>s.find(c, start)\<close> for a one-character \<^verbatim>\<open>c\<close>: the index of
  the first occurrence (at or after \<^verbatim>\<open>start\<close>), or \<open>-1\<close>. Slices \<^verbatim>\<open>s[i:j]\<close> and
  \<^verbatim>\<open>s[i:]\<close> count a negative index from the end and clamp both ends to the string.
\<close>

definition norm_index :: "nat \<Rightarrow> int \<Rightarrow> nat" where
  "norm_index n i = (if i < 0 then nat (max 0 (i + int n)) else min n (nat i))"

definition find_from :: "string \<Rightarrow> char \<Rightarrow> int \<Rightarrow> int" where
  "find_from s c start =
     (let k = norm_index (length s) start; t = drop k s
      in if c \<in> set t then int (k + length (takeWhile (\<lambda>x. x \<noteq> c) t)) else - 1)"

definition find :: "string \<Rightarrow> char \<Rightarrow> int" where
  "find s c = find_from s c 0"

definition slice :: "string \<Rightarrow> int \<Rightarrow> int \<Rightarrow> string" where
  "slice s i j =
     (let a = norm_index (length s) i; b = norm_index (length s) j
      in take (b - a) (drop a s))"

definition slice_from :: "string \<Rightarrow> int \<Rightarrow> string" where
  "slice_from s i = drop (norm_index (length s) i) s"

text \<open>
  \<^verbatim>\<open>s.lower()\<close> on code points below 256: the ASCII capitals and the Latin-1 capitals
  (\<open>0xC0\<close> to \<open>0xDE\<close> without the multiplication sign \<open>0xD7\<close>) move up by 32.
\<close>

definition lower_char :: "char \<Rightarrow> char" where
  "lower_char c =
     (let n = (of_char c :: nat)
      in if (65 \<le> n \<and> n \<le> 90) \<or> (192 \<le> n \<and> n \<le> 222 \<and> n \<noteq> 215)
         then char_of (n + 32) else c)"

definition lower :: "string \<Rightarrow> string" where
  "lower s = map lower_char s"

text \<open>
  A file opened for reading in text mode with the default \<^verbatim>\<open>newline\<close> gives every
  \<^verbatim>\<open>\r\n\<close> and every single \<^verbatim>\<open>\r\<close> as \<^verbatim>\<open>\n\<close>.
\<close>

fun universal_newlines :: "string \<Rightarrow> string" where
  "universal_newlines [] = []"
| "universal_newlines [c] = (if c = CHR 0x0D then [NEWLINE] else [c])"
| "universal_newlines (c # d # cs) =
     (if c = CHR 0x0D \<and> d = NEWLINE then NEWLINE # universal_newlines cs
      else if c = CHR 0x0D then NEWLINE # universal_newlines (d # cs)
      else c # universal_newlines (d # cs))"

section \<open>Notebook data model\<close>

text \<open>
  \<^verbatim>\<open>NotebookCellData\<close> and \<^verbatim>\<open>NotebookData\<close>. The type hints of the source are not
  enforced: the document reader stores whatever the document holds as \<^verbatim>\<open>cell_type\<close>,
  as the tags and as the name, so these fields are document values.
\<close>

record 'f NotebookCellData =
  cell_type :: "'f json"
  contents :: string
  attributes :: "'f json"

record 'f NotebookData =
  name :: "'f json"
  properties :: "(string \<times> 'f json) list"
  cells :: "'f NotebookCellData list"

text \<open>
  The files: a path has a content or does not exist. Directories, permissions and
  encodings are not modelled.
\<close>

type_synonym files = "string \<Rightarrow> string option"

section \<open>Document notebook format\<close>

definition meta_properties :: "(string \<times> string) list" where
  "meta_properties =
     [(''folder'', ''folder.name''),
      (''nbformat'', ''nbformat''),
      (''nbformat_minor'', ''nbformat_minor''),
      (''language'', ''metadata.language_info.name'')]"

text \<open>
  The body of the loop over the cells in \<^verbatim>\<open>SynapseNotebookFormat.read_file\<close>.
  \<^verbatim>\<open>.get\<close> on a value that is not a dict and \<^verbatim>\<open>.rstrip\<close> on a value that is not a
  str raise AttributeError; \<^verbatim>\<open>cell_data['source']\<close> raises KeyError when missing.
\<close>

fun source_line :: "'f json \<Rightarrow> error + string" where
  "source_line (JStr line) = Inr (rstrip [NEWLINE] line @ [NEWLINE])"
| "source_line _ = Inl AttributeError"

fun read_cell :: "'f json \<Rightarrow> error + 'f NotebookCellData" where
  "read_cell (JObj cell_data) =
     (case dict_get cell_data ''metadata'' (JObj []) of
        JObj metadata \<Rightarrow>
          (let tags = dict_get metadata ''tags'' (JList []);
               cell_type = dict_get cell_data ''cell_type'' JNull
           in case map_of cell_data ''source'' of
                None \<Rightarrow> Inl (KeyError ''source'')
              | Some source \<Rightarrow>
                  and_then (iter_json source) (\<lambda>lines.
                  and_then (traverse source_line lines) (\<lambda>parts.
                  Inr \<lparr> cell_type = cell_type, contents = concat parts, attributes = tags \<rparr>)))
      | _ \<Rightarrow> Inl AttributeError)"
| "read_cell _ = Inl AttributeError"

text \<open>
  \<^verbatim>\<open>SynapseNotebookFormat.read_file\<close> from the loaded document on.
\<close>

fun read_document :: "'f json \<Rightarrow> error + 'f NotebookData" where
  "read_document (JObj file_data) =
     (let name = dict_get file_data ''name'' JNull;
          properties_obj = dict_get file_data ''properties'' JNull;
          properties =
            foldl (\<lambda>props (prop_name, prop_path).
                     AList.update prop_name (get_property_by_path properties_obj prop_path) props)
              [] meta_properties
      in case properties_obj of
           JObj props_dict \<Rightarrow>
             and_then (iter_json (dict_get props_dict ''cells'' JNull)) (\<lambda>cell_datas.
             and_then (traverse read_cell cell_datas) (\<lambda>cells.
             Inr \<lparr> name = name, properties = properties, cells = cells \<rparr>))
         | _ \<Rightarrow> Inl AttributeError)"
| "read_document _ = Inl AttributeError"

definition synapse_read_file :: "'f runtime \<Rightarrow> files \<Rightarrow> string \<Rightarrow> error + 'f NotebookData" where
  "synapse_read_file rt fs src_path =
     (case fs src_path of
        None \<Rightarrow> Inl FileNotFoundError
      | Some content \<Rightarrow>
          (case json_load rt content of
             None \<Rightarrow> Inl LoadError
           | Some file_data \<Rightarrow> read_document file_data))"

text \<open>
  The body of the loop over the cells in \<^verbatim>\<open>SynapseNotebookFormat.write_file\<close>.
\<close>

definition write_cell :: "'f NotebookCellData \<Rightarrow> error + 'f json" where
  "write_cell cell =
     (let cell_content_lines =
            map (\<lambda>line. JStr (line @ [NEWLINE]))
              (split_on NEWLINE (rstrip [CHR '' '', NEWLINE, CHR 0x09, CHR 0x0D] (contents cell)))
      in and_then (py_len (attributes cell)) (\<lambda>n.
         Inr (JObj ([(''cell_type'', cell_type cell), (''source'', JList cell_content_lines)]
                    @ (if n > 0 then [(''tags'', attributes cell)] else [])
                    @ [(''execution_count'', JInt 0)]))))"

text \<open>
  The loop over \<^verbatim>\<open>nb_data.properties.items()\<close>: a key of \<open>meta_properties\<close> is set at
  its path, any other key is skipped.
\<close>

fun write_properties :: "'f json \<Rightarrow> (string \<times> 'f json) list \<Rightarrow> error + 'f json" where
  "write_properties props [] = Inr props"
| "write_properties props ((prop_name, prop_value) # rest) =
     (case map_of meta_properties prop_name of
        Some prop_path \<Rightarrow>
          and_then (set_property_value props prop_path prop_value) (\<lambda>props'.
          write_properties props' rest)
      | None \<Rightarrow> write_properties props rest)"

text \<open>
  \<^verbatim>\<open>SynapseNotebookFormat.write_file\<close> between loading the destination and dumping
  the result. After the name is set, \<open>file_data\<close> is a dict, so
  \<^verbatim>\<open>file_data.get('properties', {})\<close> is defined.
\<close>

definition write_document :: "'f json \<Rightarrow> 'f NotebookData \<Rightarrow> error + 'f json" where
  "write_document file_data nb_data =
     and_then (set_property_value file_data ''name'' (name nb_data)) (\<lambda>file_data1.
     (case file_data1 of
        JObj top_dict \<Rightarrow>
          and_then (write_properties (dict_get top_dict ''properties'' (JObj [])) (properties nb_data))
            (\<lambda>properties1.
          and_then (traverse write_cell (cells nb_data)) (\<lambda>cells.
          and_then (set_property_value properties1 ''cells'' (JList cells)) (\<lambda>properties2.
          set_property_value file_data1 ''properties'' properties2)))
      | _ \<Rightarrow> Inl AttributeError))"

text \<open>
  \<^verbatim>\<open>SynapseNotebookFormat.write_file\<close>. When the destination does not exist the source
  calls \<^verbatim>\<open>_get_detault_notebook_data()\<close>, a name that is bound nowhere: the method
  of the class is spelled \<^verbatim>\<open>_get_default_notebook_data\<close> and is not a global.
  The result is the exception raised, if any, and the files afterwards; the write is
  the last statement, so the files change only on success.
\<close>

definition synapse_write_file ::
  "'f runtime \<Rightarrow> files \<Rightarrow> string \<Rightarrow> 'f NotebookData \<Rightarrow> error option \<times> files" where
  "synapse_write_file rt fs dest_path nb_data =
     (case (case fs dest_path of
              Some content \<Rightarrow>
                (case json_load rt content of
                   None \<Rightarrow> Inl LoadError
                 | Some file_data \<Rightarrow> Inr file_data)
            | None \<Rightarrow> Inl (NameError ''_get_detault_notebook_data'')) of
        Inl e \<Rightarrow> (Some e, fs)
      | Inr file_data \<Rightarrow>
          (case write_document file_data nb_data of
             Inl e \<Rightarrow> (Some e, fs)
           | Inr file_data' \<Rightarrow> (None, fs(dest_path \<mapsto> json_dump rt file_data'))))"

section \<open>Text notebook format\<close>

text \<open>
  The local variables of \<^verbatim>\<open>ScratchpadNotebookFormat.read_file\<close>. In the source
  \<^verbatim>\<open>current_cell\<close> refers to an object that is also an element of \<^verbatim>\<open>cells\<close>, and
  appending to its contents changes that element; here it is the index of the element.
\<close>

record 'f reader_state = "'f NotebookData" +
  current_cell :: "nat option"

definition parse_cell :: "string \<Rightarrow> 'f NotebookCellData" where
  "parse_cell line =
     (let cell_def = strip_ws (slice_from line 6);
          cell_type = (case split_on CHR '' '' cell_def of [] \<Rightarrow> [] | w # ws \<Rightarrow> w);
          tags =
            (if CHR ''['' \<in> set cell_def
             then (let tag_part = slice cell_def (find cell_def CHR ''['') (find cell_def CHR '']'' + 1)
                   in map strip_ws
                        (filter (\<lambda>t. strip_ws t \<noteq> []) (split_on CHR '','' (slice tag_part 1 (- 1)))))
             else [])
      in \<lparr> cell_type = JStr cell_type, contents = [], attributes = JList (map JStr tags) \<rparr>)"

definition append_line :: "string \<Rightarrow> 'f reader_state \<Rightarrow> 'f reader_state" where
  "append_line line st =
     (case current_cell st of
        None \<Rightarrow> st
      | Some i \<Rightarrow>
          st\<lparr> cells := (cells st)[i := (cells st ! i)\<lparr> contents := contents (cells st ! i) @ line @ [NEWLINE] \<rparr>] \<rparr>)"

text \<open>
  The body of the loop over the lines. A line that starts with \<^verbatim>\<open>@\<close> and whose
  directive is neither \<^verbatim>\<open>cell\<close> nor \<^verbatim>\<open>meta\<close> meets no \<^verbatim>\<open>continue\<close> and goes on
  to the statement that appends it to the current cell.
\<close>

definition read_line :: "'f runtime \<Rightarrow> 'f reader_state \<Rightarrow> string \<Rightarrow> 'f reader_state" where
  "read_line rt st line =
     (if startswith line ''@'' then
        (let directive = lower (slice line 1 (find line CHR '' ''))
         in if directive = ''cell'' then
              st\<lparr> cells := cells st @ [parse_cell line], current_cell := Some (length (cells st)) \<rparr>
            else if directive = ''meta'' then
              (let sp1 = find line CHR '' '';
                   sp2 = find_from line CHR '' '' (sp1 + 1);
                   prop_name = slice line (sp1 + 1) sp2;
                   prop_value = slice_from line (sp2 + 1);
                   parsed_value = parse_value rt prop_value
               in if prop_name = ''name'' then st\<lparr> name := parsed_value \<rparr>
                  else st\<lparr> properties := AList.update prop_name parsed_value (properties st) \<rparr>)
            else append_line line st)
      else append_line line st)"

definition read_text :: "'f runtime \<Rightarrow> string \<Rightarrow> 'f NotebookData" where
  "read_text rt file_content =
     NotebookData.truncate
       (foldl (read_line rt)
          \<lparr> name = JStr [], properties = [], cells = [], current_cell = None \<rparr>
          (split_on NEWLINE file_content))"

definition scratchpad_read_file :: "'f runtime \<Rightarrow> files \<Rightarrow> string \<Rightarrow> error + 'f NotebookData" where
  "scratchpad_read_file rt fs src_path =
     (case fs src_path of
        None \<Rightarrow> Inl FileNotFoundError
      | Some content \<Rightarrow> Inr (read_text rt (universal_newlines content)))"

text \<open>
  \<^verbatim>\<open>ScratchpadNotebookFormat.write_file\<close>. In an f-string a str stands for itself
  and any other value for its \<^verbatim>\<open>str()\<close>; \<^verbatim>\<open>','.join\<close> takes strs only.
\<close>

definition py_format :: "'f runtime \<Rightarrow> 'f json \<Rightarrow> string" where
  "py_format rt v = (case v of JStr s \<Rightarrow> s | _ \<Rightarrow> str_of rt v)"

fun join_item :: "'f json \<Rightarrow> error + string" where
  "join_item (JStr s) = Inr s"
| "join_item _ = Inl TypeError"

definition attribute_str :: "'f NotebookCellData \<Rightarrow> error + string" where
  "attribute_str cell =
     and_then (py_len (attributes cell)) (\<lambda>n.
     if n \<noteq> 0 then
       and_then (iter_json (attributes cell)) (\<lambda>items.
       and_then (traverse join_item items) (\<lambda>parts.
       Inr ('' ['' @ join '','' parts @ '']'')))
     else Inr [])"

definition cell_text :: "'f runtime \<Rightarrow> 'f NotebookCellData \<Rightarrow> error + string" where
  "cell_text rt cell =
     and_then (attribute_str cell) (\<lambda>a.
     Inr (''@cell '' @ py_format rt (cell_type cell) @ a @ [NEWLINE] @ contents cell @ [NEWLINE]))"

definition write_text :: "'f runtime \<Rightarrow> 'f NotebookData \<Rightarrow> error + string" where
  "write_text rt nb_data =
     and_then (traverse (cell_text rt) (cells nb_data)) (\<lambda>cell_texts.
     Inr (''@meta name '' @ value_str rt (name nb_data) @ [NEWLINE]
          @ concat (map (\<lambda>(prop_name, prop_value).
                           ''@meta '' @ prop_name @ '' '' @ value_str rt prop_value @ [NEWLINE])
                      (properties nb_data))
          @ concat cell_texts))"

definition scratchpad_write_file ::
  "'f runtime \<Rightarrow> files \<Rightarrow> string \<Rightarrow> 'f NotebookData \<Rightarrow> error option \<times> files" where
  "scratchpad_write_file rt fs dest_path nb_data =
     (case write_text rt nb_data of
        Inl e \<Rightarrow> (Some e, fs)
      | Inr new_file_text \<Rightarrow> (None, fs(dest_path \<mapsto> new_file_text)))"

section \<open>Conversion orchestrator\<close>

definition not_found :: "string \<Rightarrow> error" where
  "not_found path = WorkbenchError (''File not found '' @ [CHR 0x27] @ path @ [CHR 0x27])"

definition push_notebook :: "'f runtime \<Rightarrow> files \<Rightarrow> string \<Rightarrow> string \<Rightarrow> error option \<times> files" where
  "push_notebook rt fs location src =
     (let location' = abspath rt location;
          src' = abspath rt src
      in if fs location' = None then (Some (not_found location'), fs)
         else (case scratchpad_read_file rt fs location' of
                 Inl e \<Rightarrow> (Some e, fs)
               | Inr nb_data \<Rightarrow> synapse_write_file rt fs src' nb_data))"

definition pull_notebook :: "'f runtime \<Rightarrow> files \<Rightarrow> string \<Rightarrow> string \<Rightarrow> error option \<times> files" where
  "pull_notebook rt fs location src =
     (let src' = abspath rt src
      in if fs src' = None then (Some (not_found src'), fs)
         else (let location' = abspath rt location
               in case synapse_read_file rt fs src' of
                    Inl e \<Rightarrow> (Some e, fs)
                  | Inr nb_data \<Rightarrow> scratchpad_write_file rt fs location' nb_data))"

section \<open>A runtime for examples\<close>

text \<open>
  Examples need a runtime. This one has no floats and takes every path as absolute. Its
  JSON reader knows the texts listed in \<open>example_documents\<close> and rejects every other
  text; its JSON writer gives a listed document its text and any other document the text
  \<^verbatim>\<open>dumped\<close>.

  \<open>example_document\<close> has a name, an unrecognized field, the four recognized values and
  a cell with a tag. \<open>awkward_document\<close> has a name with double quotes, and a cell with a
  tag, a trailing blank line and a field of its own; \<open>awkward_document_pushed\<close> is what
  \<^verbatim>\<open>pull\<close> and then \<^verbatim>\<open>push\<close> make of it.
\<close>

definition example_document :: "unit json" where
  "example_document =
     JObj [(''name'', JStr ''nb1''),
           (''custom'', JInt 1),
           (''properties'',
            JObj [(''folder'', JObj [(''name'', JStr ''reports'')]),
                  (''nbformat'', JInt 4),
                  (''nbformat_minor'', JInt 2),
                  (''metadata'', JObj [(''language_info'', JObj [(''name'', JStr ''python'')])]),
                  (''cells'',
                   JList [JObj [(''cell_type'', JStr ''code''),
                                (''source'', JList [JStr ''x = 1'', JStr ''y = 2'']),
                                (''metadata'', JObj [(''tags'', JList [JStr ''alpha''])])]])])]"

definition awkward_document :: "unit json" where
  "awkward_document =
     JObj [(''name'', JStr (''say '' @ [DQUOTE] @ ''hi'' @ [DQUOTE])),
           (''properties'',
            JObj [(''folder'', JObj [(''name'', JStr ''reports'')]),
                  (''nbformat'', JInt 4),
                  (''nbformat_minor'', JInt 2),
                  (''metadata'', JObj [(''language_info'', JObj [(''name'', JStr ''python'')])]),
                  (''cells'',
                   JList [JObj [(''cell_type'', JStr ''code''),
                                (''source'', JList [JStr (''x = 1'' @ [NEWLINE]), JStr [NEWLINE]]),
                                (''metadata'', JObj [(''tags'', JList [JStr ''alpha''])]),
                                (''outputs'', JList [])]])])]"

definition awkward_document_pushed :: "unit json" where
  "awkward_document_pushed =
     JObj [(''name'', JStr (''say '' @ [BSLASH, DQUOTE] @ ''hi'' @ [BSLASH])),
           (''properties'',
            JObj [(''folder'', JObj [(''name'', JStr ''reports'')]),
                  (''nbformat'', JInt 4),
                  (''nbformat_minor'', JInt 2),
                  (''metadata'', JObj [(''language_info'', JObj [(''name'', JStr ''python'')])]),
                  (''cells'',
                   JList [JObj [(''cell_type'', JStr ''code''),
                                (''source'', JList [JStr (''x = 1'' @ [NEWLINE])]),
                                (''tags'', JList [JStr ''alpha'']),
                                (''execution_count'', JInt 0)]])])]"

definition example_documents :: "(string \<times> unit json) list" where
  "example_documents =
     [(''doc'', example_document),
      (''no cells'', JObj [(''properties'', JObj [])]),
      (''no properties'', JObj [(''name'', JStr ''nb2'')]),
      (''awkward'', awkward_document),
      (''awkward pushed'', awkward_document_pushed)]"

definition example_rt :: "unit runtime" where
  "example_rt =
     \<lparr> abspath = (\<lambda>p. p),
       json_load = map_of example_documents,
       json_dump = (\<lambda>d. case List.find (\<lambda>entry. snd entry = d) example_documents of
                            Some entry \<Rightarrow> fst entry
                          | None \<Rightarrow> ''dumped''),
       py_float = (\<lambda>s. None),
       py_str = (\<lambda>v. []) \<rparr>"

section \<open>Further examples and predicates\<close>

text \<open>
  A text notebook, and files that hold it beside the example document.
\<close>

definition example_text :: string where
  "example_text =
     ''@meta name '' @ [DQUOTE] @ ''renamed'' @ [DQUOTE, NEWLINE]
     @ ''@cell code [alpha]'' @ [NEWLINE] @ ''x = 1'' @ [NEWLINE]"

definition example_files :: files where
  "example_files = [''nb.txt'' \<mapsto> example_text, ''nb.json'' \<mapsto> ''doc'']"


definition blank_lines_document :: "unit json" where
  "blank_lines_document =
     JObj [(''properties'',
            JObj [(''cells'',
                   JList [JObj [(''cell_type'', JStr ''code''),
                                (''source'', JList [JStr [CHR ''x'', NEWLINE], JStr [NEWLINE], JStr [NEWLINE]])]])])]"

text \<open>
  The exceptions of Python itself, as opposed to the program's own \<open>WorkbenchError\<close>.
\<close>

fun builtin_error :: "error \<Rightarrow> bool" where
  "builtin_error (WorkbenchError msg) = False"
| "builtin_error _ = True"

section \<open>Statements of the specification\<close>

text \<open>
  The directive name of a line of the text format, the lines that start a cell, the
  state in which the text reader starts, and the invariant of its loop: the current
  cell, when there is one, is the last cell.
\<close>

definition directive_name :: "string \<Rightarrow> string" where
  "directive_name line = lower (slice line 1 (find line CHR '' ''))"

definition is_cell_directive :: "string \<Rightarrow> bool" where
  "is_cell_directive line = (startswith line ''@'' \<and> directive_name line = ''cell'')"

definition initial_state :: "'f reader_state" where
  "initial_state = \<lparr> name = JStr [], properties = [], cells = [], current_cell = None \<rparr>"

definition current_is_last :: "'f reader_state \<Rightarrow> bool" where
  "current_is_last st =
     (case current_cell st of
        None \<Rightarrow> True
      | Some i \<Rightarrow> cells st \<noteq> [] \<and> i = length (cells st) - 1)"

text \<open>
  The value at a path of keys of a document, and the paths that the document writer
  assigns: the name, the recognized metadata paths and the cells. Two paths are apart
  when neither is the beginning of the other.
\<close>

fun lookup_path :: "'f json \<Rightarrow> string list \<Rightarrow> 'f json option" where
  "lookup_path v [] = Some v"
| "lookup_path (JObj m) (k # ks) =
     (case map_of m k of None \<Rightarrow> None | Some child \<Rightarrow> lookup_path child ks)"
| "lookup_path _ (k # ks) = None"

definition written_paths :: "string list list" where
  "written_paths =
     [[''name''],
      [''properties'', ''folder'', ''name''],
      [''properties'', ''nbformat''],
      [''properties'', ''nbformat_minor''],
      [''properties'', ''metadata'', ''language_info'', ''name''],
      [''properties'', ''cells'']]"

definition apart :: "string list \<Rightarrow> string list \<Rightarrow> bool" where
  "apart p w = (\<not> prefix w p \<and> \<not> prefix p w)"















text \<open>
  The directive name as the specification words it: the text between \<^verbatim>\<open>@\<close> and the
  first space, lowercased; without a space, the text after \<^verbatim>\<open>@\<close>.
\<close>

definition directive_name_as_specified :: "string \<Rightarrow> string" where
  "directive_name_as_specified line = lower (takeWhile (\<lambda>c. c \<noteq> CHR '' '') (tl line))"

text \<open>
  The cells with a text put into the contents of cell \<open>i\<close> after its first \<open>k\<close>
  characters.
\<close>

definition insert_in_cell ::
  "nat \<Rightarrow> nat \<Rightarrow> string \<Rightarrow> 'f NotebookCellData list \<Rightarrow> 'f NotebookCellData list" where
  "insert_in_cell i k ins cs =
     cs[i := (cs ! i)\<lparr> contents := take k (contents (cs ! i)) @ ins @ drop k (contents (cs ! i)) \<rparr>]"

section \<open>Facts about the string primitives\<close>

lemma replace_absent: "a \<notin> set s \<Longrightarrow> replace (a # as) new s = s"
  by (induction s) auto

lemma dropWhile_replicate_append: "P x \<Longrightarrow> dropWhile P (replicate n x @ ys) = dropWhile P ys"
  by (induction n) simp_all

lemma dropWhile_keep: "ys \<noteq> [] \<Longrightarrow> \<not> P (hd ys) \<Longrightarrow> dropWhile P ys = ys"
  by (cases ys) simp_all

lemma rstrip_quotes:
  assumes "body \<noteq> []" and "last body \<noteq> DQUOTE"
  shows "rstrip [DQUOTE] (pre @ body @ replicate n DQUOTE) = pre @ body"
proof -
  let ?P = "\<lambda>c. c \<in> set [DQUOTE]"
  have "rev (pre @ body @ replicate n DQUOTE) = replicate n DQUOTE @ rev body @ rev pre"
    by simp
  moreover have "dropWhile ?P (replicate n DQUOTE @ rev body @ rev pre) = dropWhile ?P (rev body @ rev pre)"
    by (rule dropWhile_replicate_append) simp
  moreover have "dropWhile ?P (rev body @ rev pre) = rev body @ rev pre"
    using assms by (intro dropWhile_keep) (simp_all add: hd_rev)
  ultimately show ?thesis
    by (simp only: rstrip_def rev_append rev_rev_ident append_assoc)
qed

lemma lstrip_quotes:
  assumes "body \<noteq> []" and "hd body \<noteq> DQUOTE"
  shows "lstrip [DQUOTE] (replicate m DQUOTE @ body) = body"
proof -
  let ?P = "\<lambda>c. c \<in> set [DQUOTE]"
  have "dropWhile ?P (replicate m DQUOTE @ body) = dropWhile ?P body"
    by (rule dropWhile_replicate_append) simp
  moreover have "dropWhile ?P body = body"
    using assms by (intro dropWhile_keep) simp_all
  ultimately show ?thesis by (simp only: lstrip_def)
qed

lemma strip_all_quotes: "strip [DQUOTE] (replicate n DQUOTE) = []"
proof -
  have "dropWhile (\<lambda>c. c \<in> set [DQUOTE]) (replicate n DQUOTE @ []) = dropWhile (\<lambda>c. c \<in> set [DQUOTE]) []"
    by (rule dropWhile_replicate_append) simp
  then show ?thesis by (simp add: strip_def rstrip_def lstrip_def)
qed

lemma strip_quotes:
  assumes "DQUOTE \<notin> set body"
  shows "strip [DQUOTE] (replicate m DQUOTE @ body @ replicate n DQUOTE) = body"
proof (cases "body = []")
  case True
  have "replicate m DQUOTE @ replicate n DQUOTE = replicate (m + n) DQUOTE"
    by (simp add: replicate_add)
  with True show ?thesis by (simp only: append_Nil strip_all_quotes)
next
  case False
  with assms have l: "last body \<noteq> DQUOTE" and h: "hd body \<noteq> DQUOTE"
    by (metis last_in_set, metis hd_in_set)
  show ?thesis
    unfolding strip_def
    by (simp only: rstrip_quotes [OF False l] lstrip_quotes [OF False h])
qed








section \<open>Facts about exceptions and loops\<close>

lemma and_then_Inr_iff: "and_then r f = Inr y \<longleftrightarrow> (\<exists>x. r = Inr x \<and> f x = Inr y)"
  by (cases r) (simp_all add: and_then_def)

lemma and_then_Inl_iff: "and_then r f = Inl e \<longleftrightarrow> r = Inl e \<or> (\<exists>x. r = Inr x \<and> f x = Inl e)"
  by (cases r) (simp_all add: and_then_def)

lemma traverse_length: "traverse f xs = Inr ys \<Longrightarrow> length ys = length xs"
  by (induction xs arbitrary: ys) (auto simp: and_then_Inr_iff)

lemma traverse_nth: "traverse f xs = Inr ys \<Longrightarrow> i < length xs \<Longrightarrow> f (xs ! i) = Inr (ys ! i)"
proof (induction xs arbitrary: ys i)
  case Nil
  then show ?case by simp
next
  case (Cons x xs)
  then obtain y ys' where y: "f x = Inr y" and ys': "traverse f xs = Inr ys'" and ys: "ys = y # ys'"
    by (auto simp: and_then_Inr_iff)
  show ?case
  proof (cases i)
    case 0
    with y ys show ?thesis by simp
  next
    case (Suc j)
    with Cons.prems(2) have "j < length xs" by simp
    with Cons.IH [OF ys'] have "f (xs ! j) = Inr (ys' ! j)" by simp
    with Suc ys show ?thesis by simp
  qed
qed

lemma traverse_source_lines:
  "traverse source_line (map JStr lines) = Inr (map (\<lambda>l. rstrip [NEWLINE] l @ [NEWLINE]) lines)"
  by (induction lines) (simp_all add: and_then_def)

lemma read_cell_contents:
  assumes "read_cell (JObj cell_data) = Inr cell"
    and "map_of cell_data ''source'' = Some (JList (map JStr lines))"
  shows "contents cell = concat (map (\<lambda>l. rstrip [NEWLINE] l @ [NEWLINE]) lines)"
  using assms
  by (auto simp: and_then_def traverse_source_lines Let_def split: json.splits)

lemma read_document_cells:
  assumes "read_document (JObj file_data) = Inr nb_data"
    and "map_of file_data ''properties'' = Some (JObj props)"
    and "map_of props ''cells'' = Some (JList cell_datas)"
  shows "traverse read_cell cell_datas = Inr (cells nb_data)"
  using assms
  by (auto simp: and_then_Inr_iff dict_get_def Let_def)

lemma and_then_builtin:
  assumes "and_then r f = Inl e"
    and "r = Inl e \<Longrightarrow> builtin_error e"
    and "\<And>x. r = Inr x \<Longrightarrow> f x = Inl e \<Longrightarrow> builtin_error e"
  shows "builtin_error e"
  using assms by (auto simp: and_then_Inl_iff)

lemma traverse_builtin:
  assumes "traverse f xs = Inl e" and "\<And>x. f x = Inl e \<Longrightarrow> builtin_error e"
  shows "builtin_error e"
  using assms
  by (induction xs) (auto simp: and_then_Inl_iff)

lemma set_item_builtin: "set_item node k v = Inl e \<Longrightarrow> builtin_error e"
  by (cases node) auto

lemma set_parts_builtin: "set_parts node ps v = Inl e \<Longrightarrow> builtin_error e"
  by (induction node ps v rule: set_parts.induct)
    (auto dest: set_item_builtin split: option.splits sum.splits)

lemma set_property_value_builtin: "set_property_value obj path v = Inl e \<Longrightarrow> builtin_error e"
  unfolding set_property_value_def by (rule set_parts_builtin)

lemma py_len_builtin: "py_len v = Inl e \<Longrightarrow> builtin_error e"
  by (cases v) auto

lemma iter_json_builtin: "iter_json v = Inl e \<Longrightarrow> builtin_error e"
  by (cases v) auto

lemma write_cell_builtin: "write_cell cell = Inl e \<Longrightarrow> builtin_error e"
  by (auto simp: write_cell_def Let_def and_then_Inl_iff dest: py_len_builtin)

lemma write_properties_builtin: "write_properties props kvs = Inl e \<Longrightarrow> builtin_error e"
  by (induction props kvs rule: write_properties.induct)
    (auto simp: and_then_Inl_iff dest: set_property_value_builtin split: option.splits)

lemma write_document_builtin:
  fixes file_data :: "'f json"
  assumes "write_document file_data nb_data = Inl e"
  shows "builtin_error e"
proof -
  from assms consider
      (name) "set_property_value file_data ''name'' (name nb_data) = Inl e"
    | (rest) file_data1 where "set_property_value file_data ''name'' (name nb_data) = Inr file_data1"
        "(case file_data1 of
            JObj top_dict \<Rightarrow>
              and_then (write_properties (dict_get top_dict ''properties'' (JObj [])) (properties nb_data))
                (\<lambda>properties1.
              and_then (traverse write_cell (cells nb_data)) (\<lambda>cells.
              and_then (set_property_value properties1 ''cells'' (JList cells)) (\<lambda>properties2.
              set_property_value file_data1 ''properties'' properties2)))
          | _ \<Rightarrow> Inl AttributeError) = Inl e"
    unfolding write_document_def and_then_Inl_iff by blast
  then show ?thesis
  proof cases
    case name
    then show ?thesis by (rule set_property_value_builtin)
  next
    case rest
    show ?thesis
    proof (cases file_data1)
      case (JObj top_dict)
      with rest(2) consider
          "write_properties (dict_get top_dict ''properties'' (JObj [])) (properties nb_data) = Inl e"
        | "traverse write_cell (cells nb_data) = Inl e"
        | props1 :: "'f json" and cs where "set_property_value props1 ''cells'' (JList cs) = Inl e"
        | props2 where "set_property_value file_data1 ''properties'' props2 = Inl e"
        by (auto simp: and_then_Inl_iff)
      then show ?thesis
      proof cases
        case 1
        then show ?thesis by (rule write_properties_builtin)
      next
        case 2
        then show ?thesis by (rule traverse_builtin) (rule write_cell_builtin)
      next
        case 3
        then show ?thesis by (rule set_property_value_builtin)
      next
        case 4
        then show ?thesis by (rule set_property_value_builtin)
      qed
    qed (use rest(2) in auto)
  qed
qed

lemma synapse_write_file_builtin:
  "fst (synapse_write_file rt fs dest_path nb_data) = Some e \<Longrightarrow> builtin_error e"
  by (auto simp: synapse_write_file_def split: option.splits sum.splits dest: write_document_builtin)

lemma source_line_builtin: "source_line v = Inl e \<Longrightarrow> builtin_error e"
  by (cases v) auto

lemma read_cell_builtin: "read_cell v = Inl e \<Longrightarrow> builtin_error e"
  by (cases v)
    (auto simp: and_then_Inl_iff Let_def split: json.splits option.splits
      dest: iter_json_builtin traverse_builtin [where f = source_line, OF _ source_line_builtin])

lemma read_document_builtin: "read_document v = Inl e \<Longrightarrow> builtin_error e"
  by (cases v)
    (auto simp: and_then_Inl_iff Let_def split: json.splits
      dest: iter_json_builtin traverse_builtin [where f = read_cell, OF _ read_cell_builtin])

lemma synapse_read_file_builtin: "synapse_read_file rt fs src_path = Inl e \<Longrightarrow> builtin_error e"
  by (auto simp: synapse_read_file_def split: option.splits dest: read_document_builtin)

lemma join_item_builtin: "join_item v = Inl e \<Longrightarrow> builtin_error e"
  by (cases v) auto

lemma attribute_str_builtin: "attribute_str cell = Inl e \<Longrightarrow> builtin_error e"
  by (auto simp: attribute_str_def and_then_Inl_iff split: if_splits
      dest: py_len_builtin iter_json_builtin traverse_builtin [where f = join_item, OF _ join_item_builtin])

lemma cell_text_builtin: "cell_text rt cell = Inl e \<Longrightarrow> builtin_error e"
  by (auto simp: cell_text_def and_then_Inl_iff dest: attribute_str_builtin)

lemma scratchpad_write_file_builtin:
  "fst (scratchpad_write_file rt fs dest_path nb_data) = Some e \<Longrightarrow> builtin_error e"
  by (auto simp: scratchpad_write_file_def write_text_def and_then_Inl_iff split: sum.splits
      dest: traverse_builtin [where f = "cell_text rt", OF _ cell_text_builtin])

lemma scratchpad_read_file_builtin: "scratchpad_read_file rt fs src_path = Inl e \<Longrightarrow> builtin_error e"
  by (auto simp: scratchpad_read_file_def split: option.splits)

section \<open>What the setter leaves alone\<close>

lemma set_item_frame:
  assumes "set_item node k v = Inr node'" and "apart p [k]"
  shows "lookup_path node' p = lookup_path node p"
proof -
  from assms(1) obtain m where m: "node = JObj m" "node' = JObj (AList.update k v m)"
    by (cases node) auto
  from assms(2) obtain k' ks where p: "p = k' # ks" "k' \<noteq> k"
    by (cases p) (auto simp: apart_def)
  show ?thesis by (simp add: m p update_conv')
qed

lemma set_parts_frame:
  "set_parts node ps v = Inr node' \<Longrightarrow> apart p ps \<Longrightarrow> lookup_path node' p = lookup_path node p"
proof (induction node ps v arbitrary: node' p rule: set_parts.induct)
  case (1 node v)
  then show ?case by simp
next
  case (2 node p0 v)
  then show ?case by (simp add: set_item_frame)
next
  case (3 m p0 q ps v)
  from "3.prems"(1) obtain child child' where
    c: "map_of m p0 = Some child" "set_parts child (q # ps) v = Inr child'"
      "node' = JObj (AList.update p0 child' m)"
    by (auto split: option.splits sum.splits)
  from "3.prems"(2) obtain k ks where p: "p = k # ks"
    by (cases p) (auto simp: apart_def)
  show ?case
  proof (cases "k = p0")
    case True
    with "3.prems"(2) p have "apart ks (q # ps)" by (simp add: apart_def)
    with "3.IH" c have "lookup_path child' ks = lookup_path child ks" by simp
    with True c p show ?thesis by (simp add: update_conv')
  next
    case False
    with c p show ?thesis by (simp add: update_conv')
  qed
qed simp_all

lemma set_property_value_frame:
  "set_property_value obj path v = Inr obj' \<Longrightarrow> apart p (split_on CHR ''.'' path)
   \<Longrightarrow> lookup_path obj' p = lookup_path obj p"
  unfolding set_property_value_def by (rule set_parts_frame)

lemma write_properties_frame:
  "write_properties props kvs = Inr props' \<Longrightarrow>
   \<forall>w \<in> set (map (\<lambda>kv. split_on CHR ''.'' (snd kv)) meta_properties). apart p w \<Longrightarrow>
   lookup_path props' p = lookup_path props p"
proof (induction props kvs arbitrary: props' rule: write_properties.induct)
  case (1 props)
  then show ?case by simp
next
  case (2 props prop_name prop_value rest)
  show ?case
  proof (cases "map_of meta_properties prop_name")
    case None
    with 2 show ?thesis by simp
  next
    case (Some prop_path)
    with "2.prems"(1) obtain props1 where
      s: "set_property_value props prop_path prop_value = Inr props1"
        "write_properties props1 rest = Inr props'"
      by (auto simp: and_then_Inr_iff)
    from Some have "(prop_name, prop_path) \<in> set meta_properties" by (rule map_of_SomeD)
    then have "split_on CHR ''.'' prop_path \<in> set (map (\<lambda>kv. split_on CHR ''.'' (snd kv)) meta_properties)"
      by force
    with "2.prems"(2) have "apart p (split_on CHR ''.'' prop_path)" by blast
    with s(1) have "lookup_path props1 p = lookup_path props p" by (rule set_property_value_frame)
    moreover have "lookup_path props' p = lookup_path props1 p"
      using "2.IH" Some s(2) "2.prems"(2) by blast
    ultimately show ?thesis by simp
  qed
qed

lemma meta_paths:
  "map (\<lambda>kv. split_on CHR ''.'' (snd kv)) meta_properties
     = [[''folder'', ''name''], [''nbformat''], [''nbformat_minor''],
        [''metadata'', ''language_info'', ''name'']]"
  by (simp add: meta_properties_def)

lemma write_document_frame:
  assumes w: "write_document file_data nb_data = Inr file_data'"
    and p: "\<forall>w \<in> set written_paths. apart p w"
  shows "lookup_path file_data' p = lookup_path file_data p"
proof -
  from w obtain file_data1 where
    n: "set_property_value file_data ''name'' (name nb_data) = Inr file_data1"
    unfolding write_document_def by (auto simp: and_then_Inr_iff)
  then obtain top_dict where t: "file_data1 = JObj top_dict"
    by (cases file_data) (auto simp: set_property_value_def)
  let ?props = "dict_get top_dict ''properties'' (JObj [])"
  from w n t obtain props1 cs props2 where
    s: "write_properties ?props (properties nb_data) = Inr props1"
      "set_property_value props1 ''cells'' (JList cs) = Inr props2"
      "set_property_value file_data1 ''properties'' props2 = Inr file_data'"
    unfolding write_document_def by (auto simp: and_then_Inr_iff)
  from s(3) t have fd': "file_data' = JObj (AList.update ''properties'' props2 top_dict)"
    by (simp add: set_property_value_def)
  from p obtain k ks where pk: "p = k # ks"
    by (cases p) (auto simp: written_paths_def apart_def)
  have name_apart: "apart p [''name'']"
    using p by (simp add: written_paths_def)
  have step1: "lookup_path file_data1 p = lookup_path file_data p"
    using n name_apart by (rule set_property_value_frame [where path = "''name''", simplified])
  show ?thesis
  proof (cases "k = ''properties''")
    case False
    with fd' pk have "lookup_path file_data' p = lookup_path file_data1 p"
      by (simp add: t update_conv')
    with step1 show ?thesis by simp
  next
    case True
    from p pk True have ks: "ks \<noteq> []"
      by (auto simp: written_paths_def apart_def)
    from p pk True have ks_apart:
      "\<forall>w \<in> set (map (\<lambda>kv. split_on CHR ''.'' (snd kv)) meta_properties). apart ks w"
      and cells_apart: "apart ks [''cells'']"
      unfolding meta_paths by (simp_all add: written_paths_def apart_def)
    have "lookup_path file_data' p = lookup_path props2 ks"
      using fd' pk True by (simp add: update_conv')
    also have "\<dots> = lookup_path props1 ks"
      using s(2) cells_apart by (rule set_property_value_frame [where path = "''cells''", simplified])
    also have "\<dots> = lookup_path ?props ks"
      using s(1) ks_apart by (rule write_properties_frame)
    also have "\<dots> = lookup_path file_data1 p"
      using ks by (cases ks) (simp_all add: t pk True dict_get_def split: option.splits)
    finally show ?thesis using step1 by simp
  qed
qed

lemma example_push:
  "fst (push_notebook example_rt example_files ''nb.txt'' ''nb.json'') = None"
  by code_simp

section \<open>The loop of the text reader\<close>

lemma split_on_absent: "sep \<notin> set l \<Longrightarrow> split_on sep l = [l]"
  by (induction l) auto

lemma split_on_append:
  "sep \<notin> set l \<Longrightarrow> split_on sep (l @ sep # rest) = l # split_on sep rest"
  by (induction l) auto

lemma split_on_join:
  "ls \<noteq> [] \<Longrightarrow> \<forall>l \<in> set ls. sep \<notin> set l \<Longrightarrow> split_on sep (join [sep] ls) = ls"
  by (induction "[sep]" ls rule: join.induct) (simp_all add: split_on_absent split_on_append)

lemma read_line_other:
  assumes "\<not> (startswith line ''@'' \<and> (directive_name line = ''cell'' \<or> directive_name line = ''meta''))"
  shows "read_line rt st line = append_line line st"
  using assms by (auto simp: read_line_def directive_name_def Let_def)

lemma read_line_cell:
  assumes "is_cell_directive line"
  shows "read_line rt st line
         = st\<lparr> cells := cells st @ [parse_cell line], current_cell := Some (length (cells st)) \<rparr>"
  using assms by (simp add: read_line_def directive_name_def is_cell_directive_def Let_def)

lemma read_line_current:
  "current_cell (read_line rt st line)
     = (if is_cell_directive line then Some (length (cells st)) else current_cell st)"
  by (auto simp: read_line_def directive_name_def is_cell_directive_def Let_def append_line_def
      split: option.splits)

lemma read_line_length_cells:
  "length (cells (read_line rt st line))
     = (if is_cell_directive line then Suc (length (cells st)) else length (cells st))"
  by (auto simp: read_line_def directive_name_def is_cell_directive_def Let_def append_line_def
      split: option.splits)

lemma read_line_current_is_last:
  assumes "current_is_last st"
  shows "current_is_last (read_line rt st line)"
proof (cases "is_cell_directive line")
  case True
  then show ?thesis
    by (simp add: read_line_cell current_is_last_def)
next
  case False
  have len: "length (cells (read_line rt st line)) = length (cells st)"
    using False by (simp add: read_line_length_cells)
  have cur: "current_cell (read_line rt st line) = current_cell st"
    using False by (simp add: read_line_current)
  from len have "cells (read_line rt st line) = [] \<longleftrightarrow> cells st = []"
    by (metis length_0_conv)
  with assms len cur show ?thesis
    by (simp add: current_is_last_def split: option.splits)
qed

lemma foldl_current_is_last:
  "current_is_last st \<Longrightarrow> current_is_last (foldl (read_line rt) st ls)"
  by (induction ls arbitrary: st) (simp_all add: read_line_current_is_last)

lemma foldl_current:
  "current_cell (foldl (read_line rt) st ls) = None
     \<longleftrightarrow> current_cell st = None \<and> (\<forall>l \<in> set ls. \<not> is_cell_directive l)"
  by (induction ls arbitrary: st) (auto simp: read_line_current)

lemma read_text_lines:
  assumes "ls \<noteq> []" and "\<forall>l \<in> set ls. NEWLINE \<notin> set l"
  shows "read_text rt (join [NEWLINE] ls) = NotebookData.truncate (foldl (read_line rt) initial_state ls)"
  using assms by (simp add: read_text_def split_on_join initial_state_def)

lemma read_text_empty: "read_text rt [] = NotebookData.truncate initial_state"
  by (simp add: read_text_def initial_state_def read_line_def append_line_def startswith_def)

lemma read_text_lines':
  assumes "\<forall>l \<in> set ls. NEWLINE \<notin> set l"
  shows "read_text rt (join [NEWLINE] ls) = NotebookData.truncate (foldl (read_line rt) initial_state ls)"
proof (cases "ls = []")
  case True
  then show ?thesis by (simp add: read_text_empty)
next
  case False
  then show ?thesis using assms by (rule read_text_lines)
qed

lemma append_line_last:
  assumes "current_is_last st" and "current_cell st \<noteq> None"
  shows "cells (append_line line st)
         = butlast (cells st) @ [last (cells st)\<lparr> contents := contents (last (cells st)) @ line @ [NEWLINE] \<rparr>]"
    and "name (append_line line st) = name st"
    and "properties (append_line line st) = properties st"
proof -
  from assms obtain i where i: "current_cell st = Some i" "cells st \<noteq> []" "i = length (cells st) - 1"
    by (auto simp: current_is_last_def)
  then have "(cells st)[i := c] = butlast (cells st) @ [c]" for c
    by (metis append_butlast_last_id length_butlast list_update_length)
  moreover have "cells st ! i = last (cells st)"
    using i by (simp add: last_conv_nth)
  ultimately show "cells (append_line line st)
         = butlast (cells st) @ [last (cells st)\<lparr> contents := contents (last (cells st)) @ line @ [NEWLINE] \<rparr>]"
    using i by (simp add: append_line_def)
  show "name (append_line line st) = name st" "properties (append_line line st) = properties st"
    using i by (simp_all add: append_line_def)
qed

section \<open>Decoding what the encoder writes\<close>


















section \<open>Lines of the text format\<close>














section \<open>Cells in the text format\<close>















section \<open>Reading back the lines of a notebook\<close>









section \<open>Reading the text of a whole notebook\<close>














section \<open>Writing the notebook back into its document\<close>
















section \<open>A line put into the contents of a cell\<close>

lemma directive_name_with_space:
  assumes "startswith line ''@''" and "CHR '' '' \<in> set line"
  shows "directive_name line = directive_name_as_specified line"
proof -
  from assms(1) obtain rest where l: "line = CHR ''@'' # rest"
    by (cases line) (auto simp: startswith_def)
  let ?w = "takeWhile (\<lambda>c. c \<noteq> CHR '' '') rest"
  have f: "find (CHR ''@'' # rest) CHR '' '' = int (Suc (length ?w))"
    using assms(2) by (simp add: find_def find_from_def norm_index_def l)
  have "length ?w \<le> length rest" by (rule length_takeWhile_le)
  moreover have "nat (1 + int (length ?w)) = Suc (length ?w)" by simp
  ultimately have "slice (CHR ''@'' # rest) 1 (int (Suc (length ?w))) = take (length ?w) rest"
    by (simp add: slice_def norm_index_def)
  also have "\<dots> = ?w" by (rule takeWhile_eq_take [symmetric])
  finally have "slice (CHR ''@'' # rest) 1 (find (CHR ''@'' # rest) CHR '' '') = ?w"
    by (simp only: f)
  then show ?thesis
    by (simp only: directive_name_def directive_name_as_specified_def l list.sel)
qed

lemma insert_in_cell_length [simp]: "length (insert_in_cell i k ins cs) = length cs"
  by (simp add: insert_in_cell_def)

lemma insert_in_cell_snoc:
  "i < length cs \<Longrightarrow> insert_in_cell i k ins (cs @ [c]) = insert_in_cell i k ins cs @ [c]"
  by (simp add: insert_in_cell_def list_update_append1 nth_append)

lemma insert_in_cell_update:
  assumes "i < length cs" and "k \<le> length (contents (cs ! i))"
  shows "(insert_in_cell i k ins cs)
           [j := (insert_in_cell i k ins cs ! j)
                   \<lparr> contents := contents (insert_in_cell i k ins cs ! j) @ extra \<rparr>]
         = insert_in_cell i k ins (cs[j := (cs ! j)\<lparr> contents := contents (cs ! j) @ extra \<rparr>])"
proof (cases "j = i")
  case True
  with assms show ?thesis by (simp add: insert_in_cell_def)
next
  case False
  then show ?thesis
    by (simp add: insert_in_cell_def list_update_swap [of i j])
qed

lemma read_line_inserted:
  assumes "i < length (cells st)" and "k \<le> length (contents (cells st ! i))"
  shows "read_line rt (st\<lparr> cells := insert_in_cell i k ins (cells st) \<rparr>) l
         = (read_line rt st l)\<lparr> cells := insert_in_cell i k ins (cells (read_line rt st l)) \<rparr>"
    and "i < length (cells (read_line rt st l))"
    and "k \<le> length (contents (cells (read_line rt st l) ! i))"
proof -
  have app: "append_line l (st\<lparr> cells := insert_in_cell i k ins (cells st) \<rparr>)
             = (append_line l st)\<lparr> cells := insert_in_cell i k ins (cells (append_line l st)) \<rparr>"
    using insert_in_cell_update [OF assms, of ins _ "l @ [NEWLINE]"]
    by (simp add: append_line_def split: option.splits)
  have app_len: "i < length (cells (append_line l st))"
    using assms(1) by (simp add: append_line_def split: option.splits)
  have app_k: "k \<le> length (contents (cells (append_line l st) ! i))"
  proof (cases "current_cell st")
    case None
    with assms show ?thesis by (simp add: append_line_def)
  next
    case (Some j)
    show ?thesis
    proof (cases "j = i")
      case True
      with Some assms show ?thesis by (simp add: append_line_def)
    next
      case False
      with Some assms show ?thesis by (simp add: append_line_def)
    qed
  qed
  show "read_line rt (st\<lparr> cells := insert_in_cell i k ins (cells st) \<rparr>) l
         = (read_line rt st l)\<lparr> cells := insert_in_cell i k ins (cells (read_line rt st l)) \<rparr>"
    using assms(1) app by (simp add: read_line_def Let_def insert_in_cell_snoc)
  show "i < length (cells (read_line rt st l))"
    using assms(1) app_len by (simp add: read_line_def Let_def)
  show "k \<le> length (contents (cells (read_line rt st l) ! i))"
    using assms app_k by (simp add: read_line_def Let_def nth_append)
qed

lemma read_lines_inserted:
  assumes "i < length (cells st)" and "k \<le> length (contents (cells st ! i))"
  shows "foldl (read_line rt) (st\<lparr> cells := insert_in_cell i k ins (cells st) \<rparr>) ls
         = (foldl (read_line rt) st ls)
             \<lparr> cells := insert_in_cell i k ins (cells (foldl (read_line rt) st ls)) \<rparr>"
  using assms
proof (induction ls arbitrary: st)
  case Nil
  then show ?case by simp
next
  case (Cons l ls)
  note step = read_line_inserted(1) [OF Cons.prems, where rt = rt and ins = ins and l = l]
  note bounds = read_line_inserted(2,3) [OF Cons.prems, where rt = rt and l = l]
  show ?case
    using Cons.IH [OF bounds] by (simp add: step)
qed


lemma append_line_inserted:
  assumes "current_is_last st" and "current_cell st \<noteq> None"
  shows "append_line line st
         = st\<lparr> cells := insert_in_cell (length (cells st) - 1)
                           (length (contents (last (cells st)))) (line @ [NEWLINE]) (cells st) \<rparr>"
    and "length (cells st) - 1 < length (cells st)"
    and "length (contents (last (cells st))) \<le> length (contents (cells st ! (length (cells st) - 1)))"
proof -
  from assms obtain i where i: "current_cell st = Some i" "cells st \<noteq> []" "i = length (cells st) - 1"
    by (auto simp: current_is_last_def)
  have l: "cells st ! i = last (cells st)"
    using i by (simp add: last_conv_nth)
  show "append_line line st
         = st\<lparr> cells := insert_in_cell (length (cells st) - 1)
                           (length (contents (last (cells st)))) (line @ [NEWLINE]) (cells st) \<rparr>"
    using i l by (simp add: append_line_def insert_in_cell_def)
  show "length (cells st) - 1 < length (cells st)" using i by simp
  show "length (contents (last (cells st))) \<le> length (contents (cells st ! (length (cells st) - 1)))"
    using i l by simp
qed

section \<open>The recognized values of a document\<close>



section \<open>Path creation in the setter\<close>

text \<open>
  C3. The claim: \<^verbatim>\<open>set(tree, path, value)\<close> never fails and creates missing
  intermediate maps, so that \<^verbatim>\<open>set({}, "a.b", 7)\<close> yields \<^verbatim>\<open>{a:{b:7}}\<close>. The code
  creates the child only when the current node is not a dict, where the assignment
  itself fails, and never when the key is missing: on the empty dict the call raises
  KeyError for \<^verbatim>\<open>a\<close>.
\<close>

theorem set_property_value_missing_key:
  "set_property_value (JObj []) ''a.b'' (JInt 7) = Inl (KeyError ''a'')"
  by (simp add: set_property_value_def)

section \<open>The scalar literal codec\<close>

text \<open>
  C9. For every string without a double quote and without a backslash, decoding the
  encoded string gives the string back.
\<close>

theorem codec_round_trip:
  assumes "DQUOTE \<notin> set s" and "BSLASH \<notin> set s"
  shows "parse_value rt (value_str rt (JStr s)) = JStr s"
proof -
  have enc: "value_str rt (JStr s) = replicate 1 DQUOTE @ s @ replicate 1 DQUOTE"
    using assms by (simp add: replace_absent)
  have s: "startswith (value_str rt (JStr s)) [DQUOTE]"
    by (simp add: startswith_def)
  have e: "endswith (value_str rt (JStr s)) [DQUOTE]"
    by (simp add: endswith_def)
  have st: "strip [DQUOTE] (value_str rt (JStr s)) = s"
    unfolding enc using assms(1) by (rule strip_quotes)
  show ?thesis
    unfolding parse_value_def using s e assms
    by (simp only: st if_True simp_thms replace_absent)
qed

theorem codec_round_trip_witness:
  "parse_value example_rt (value_str example_rt (JStr ''folder one'')) = JStr ''folder one''"
  using codec_round_trip [of "''folder one''" example_rt] by simp




section \<open>The document reader\<close>

text \<open>
  C5. The claim: the document reader trims trailing blank lines, so that the source
  lines \<^verbatim>\<open>["x\n","\n","\n"]\<close> yield the contents \<^verbatim>\<open>"x\n"\<close>. The reader does not
  trim: it yields \<^verbatim>\<open>"x\n\n\n"\<close>. What holds: the contents of every cell are its source
  lines, each with its trailing newlines replaced by exactly one newline, concatenated
  in order.
\<close>

theorem read_document_contents:
  assumes "read_document (JObj file_data) = Inr nb_data"
    and "map_of file_data ''properties'' = Some (JObj props)"
    and "map_of props ''cells'' = Some (JList cell_datas)"
    and "i < length cell_datas"
    and "cell_datas ! i = JObj cell_data"
    and "map_of cell_data ''source'' = Some (JList (map JStr lines))"
  shows "i < length (cells nb_data) \<and>
         contents (cells nb_data ! i) = concat (map (\<lambda>line. rstrip [NEWLINE] line @ [NEWLINE]) lines)"
proof -
  have t: "traverse read_cell cell_datas = Inr (cells nb_data)"
    using assms(1-3) by (rule read_document_cells)
  have len: "length (cells nb_data) = length cell_datas"
    using t by (rule traverse_length)
  have "read_cell (JObj cell_data) = Inr (cells nb_data ! i)"
    using traverse_nth [OF t assms(4)] assms(5) by simp
  then have "contents (cells nb_data ! i) = concat (map (\<lambda>line. rstrip [NEWLINE] line @ [NEWLINE]) lines)"
    using assms(6) by (rule read_cell_contents)
  with len assms(4) show ?thesis by simp
qed

theorem read_document_contents_counterexample:
  "read_document blank_lines_document
     = Inr \<lparr> name = JNull,
             properties = [(''folder'', JNull), (''nbformat'', JNull),
                           (''nbformat_minor'', JNull), (''language'', JNull)],
             cells = [\<lparr> cell_type = JStr ''code'',
                        contents = [CHR ''x'', NEWLINE, NEWLINE, NEWLINE],
                        attributes = JList [] \<rparr>] \<rparr>"
  by (simp add: blank_lines_document_def dict_get_def and_then_def rstrip_def meta_properties_def
      get_property_by_path_def)

theorem read_document_contents_witness:
  "\<exists>nb_data. read_document blank_lines_document = Inr nb_data
     \<and> contents (cells nb_data ! 0) = [CHR ''x'', NEWLINE, NEWLINE, NEWLINE]"
proof -
  obtain nb_data where r: "read_document blank_lines_document = Inr nb_data"
    by (simp add: blank_lines_document_def dict_get_def and_then_def)
  have "contents (cells nb_data ! 0)
        = concat (map (\<lambda>line. rstrip [NEWLINE] line @ [NEWLINE]) [[CHR ''x'', NEWLINE], [NEWLINE], [NEWLINE]])"
    using read_document_contents [of _ nb_data _ _ 0 _ "[[CHR ''x'', NEWLINE], [NEWLINE], [NEWLINE]]",
        OF r [unfolded blank_lines_document_def]]
    by simp
  then show ?thesis using r by (simp add: rstrip_def)
qed

text \<open>
  C10. The document reader returns a notebook only for a document that is a dict whose
  \<^verbatim>\<open>properties\<close> value is a dict with an iterable \<^verbatim>\<open>cells\<close> entry. When
  \<^verbatim>\<open>properties\<close> is missing or not a dict it raises AttributeError, and when
  \<^verbatim>\<open>cells\<close> is missing it raises TypeError.
\<close>

theorem read_file_needs_cells:
  assumes "fs src_path = Some content" and "json_load rt content = Some file_data"
  shows "(synapse_read_file rt fs src_path = Inr nb_data \<longrightarrow>
            (\<exists>top_dict props cell_datas items.
               file_data = JObj top_dict \<and> map_of top_dict ''properties'' = Some (JObj props)
               \<and> map_of props ''cells'' = Some cell_datas \<and> iter_json cell_datas = Inr items))
       \<and> ((\<forall>top_dict props. file_data = JObj top_dict \<longrightarrow> map_of top_dict ''properties'' \<noteq> Some (JObj props))
            \<longrightarrow> synapse_read_file rt fs src_path = Inl AttributeError)
       \<and> (\<forall>top_dict props. file_data = JObj top_dict \<longrightarrow> map_of top_dict ''properties'' = Some (JObj props)
            \<longrightarrow> map_of props ''cells'' = None
            \<longrightarrow> synapse_read_file rt fs src_path = Inl TypeError)"
proof (intro conjI impI allI)
  assume "synapse_read_file rt fs src_path = Inr nb_data"
  with assms have r: "read_document file_data = Inr nb_data"
    by (simp add: synapse_read_file_def)
  then obtain top_dict where fd: "file_data = JObj top_dict"
    by (cases file_data) simp_all
  from r fd obtain props where p: "map_of top_dict ''properties'' = Some (JObj props)"
    by (auto simp: dict_get_def Let_def split: option.splits json.splits)
  from r fd p obtain items where "iter_json (dict_get props ''cells'' JNull) = Inr items"
    by (auto simp: dict_get_def Let_def and_then_Inr_iff)
  then obtain cell_datas where "map_of props ''cells'' = Some cell_datas" "iter_json cell_datas = Inr items"
    by (auto simp: dict_get_def split: option.splits)
  with fd p show "\<exists>top_dict props cell_datas items.
               file_data = JObj top_dict \<and> map_of top_dict ''properties'' = Some (JObj props)
               \<and> map_of props ''cells'' = Some cell_datas \<and> iter_json cell_datas = Inr items"
    by blast
next
  assume a: "\<forall>top_dict props. file_data = JObj top_dict \<longrightarrow> map_of top_dict ''properties'' \<noteq> Some (JObj props)"
  have "read_document file_data = Inl AttributeError"
  proof (cases file_data)
    case (JObj top_dict)
    with a have "\<forall>props. map_of top_dict ''properties'' \<noteq> Some (JObj props)" by simp
    with JObj show ?thesis
      by (auto simp: dict_get_def Let_def split: option.splits json.splits)
  qed simp_all
  with assms show "synapse_read_file rt fs src_path = Inl AttributeError"
    by (simp add: synapse_read_file_def)
next
  fix top_dict props
  assume "file_data = JObj top_dict" "map_of top_dict ''properties'' = Some (JObj props)"
    "map_of props ''cells'' = None"
  then have "read_document file_data = Inl TypeError"
    by (simp add: dict_get_def Let_def and_then_def)
  with assms show "synapse_read_file rt fs src_path = Inl TypeError"
    by (simp add: synapse_read_file_def)
qed

theorem read_file_needs_cells_witness:
  "synapse_read_file example_rt (Map.empty(''a.json'' \<mapsto> ''no properties'')) ''a.json'' = Inl AttributeError
   \<and> synapse_read_file example_rt (Map.empty(''b.json'' \<mapsto> ''no cells'')) ''b.json'' = Inl TypeError
   \<and> (\<exists>nb_data. synapse_read_file example_rt (Map.empty(''c.json'' \<mapsto> ''doc'')) ''c.json'' = Inr nb_data)"
proof (intro conjI)
  show "synapse_read_file example_rt (Map.empty(''a.json'' \<mapsto> ''no properties'')) ''a.json'' = Inl AttributeError"
    using read_file_needs_cells [of "Map.empty(''a.json'' \<mapsto> ''no properties'')" "''a.json''"
        "''no properties''" example_rt "JObj [(''name'', JStr ''nb2'')]"]
    by (simp add: example_rt_def example_documents_def)
  show "synapse_read_file example_rt (Map.empty(''b.json'' \<mapsto> ''no cells'')) ''b.json'' = Inl TypeError"
    using read_file_needs_cells [of "Map.empty(''b.json'' \<mapsto> ''no cells'')" "''b.json''"
        "''no cells''" example_rt "JObj [(''properties'', JObj [])]"]
    by (simp add: example_rt_def example_documents_def)
  show "\<exists>nb_data. synapse_read_file example_rt (Map.empty(''c.json'' \<mapsto> ''doc'')) ''c.json'' = Inr nb_data"
    by (simp add: synapse_read_file_def example_rt_def example_documents_def example_document_def
        dict_get_def and_then_def)
qed

section \<open>The text reader\<close>

text \<open>
  C6. The claim: a directive line whose name is neither \<^verbatim>\<open>cell\<close> nor \<^verbatim>\<open>meta\<close> has no
  effect, so that the notebook read is the one read without the line. The code handles
  such a line as it handles a line of content. The name that the code compares is
  \<open>directive_name\<close>: the text between \<^verbatim>\<open>@\<close> and the first space, as specified, when
  the line has a space, and the text between \<^verbatim>\<open>@\<close> and the last character when it
  has none, so that \<^verbatim>\<open>@cells\<close> starts a cell. What holds for a line whose
  \<open>directive_name\<close> is neither \<^verbatim>\<open>cell\<close> nor \<^verbatim>\<open>meta\<close>, wherever it stands in the
  input: before the first cell directive the line is dropped and the notebook is the
  one read without it; after a cell directive the notebook is the one read without the
  line, except that the line and a newline stand in the contents of the cell that was
  current at the line (the last cell read so far), at the place that the contents had
  reached.
\<close>

theorem unrecognized_directive_line:
  assumes "startswith line ''@''"
    and "directive_name line \<noteq> ''cell''" and "directive_name line \<noteq> ''meta''"
    and "\<forall>l \<in> set (pre @ line # post). NEWLINE \<notin> set l"
  shows "(CHR '' '' \<in> set line \<longrightarrow> directive_name line = directive_name_as_specified line)
       \<and> ((\<forall>l \<in> set pre. \<not> is_cell_directive l) \<longrightarrow>
            read_text rt (join [NEWLINE] (pre @ line # post)) = read_text rt (join [NEWLINE] (pre @ post)))
       \<and> ((\<exists>l \<in> set pre. is_cell_directive l) \<longrightarrow>
            read_text rt (join [NEWLINE] (pre @ line # post))
            = (read_text rt (join [NEWLINE] (pre @ post)))
                \<lparr> cells :=
                    insert_in_cell (length (cells (read_text rt (join [NEWLINE] pre))) - 1)
                      (length (contents (last (cells (read_text rt (join [NEWLINE] pre))))))
                      (line @ [NEWLINE])
                      (cells (read_text rt (join [NEWLINE] (pre @ post)))) \<rparr>)"
proof (intro conjI impI)
  assume "CHR '' '' \<in> set line"
  with assms(1) show "directive_name line = directive_name_as_specified line"
    by (rule directive_name_with_space)
next
  let ?st = "foldl (read_line rt) initial_state pre"
  have step: "read_line rt st line = append_line line st" for st :: "'a reader_state"
    using assms(2,3) by (intro read_line_other) simp
  assume "\<forall>l \<in> set pre. \<not> is_cell_directive l"
  then have "current_cell ?st = None"
    by (simp add: foldl_current initial_state_def)
  then have "read_line rt ?st line = ?st"
    by (simp add: step append_line_def)
  then have "foldl (read_line rt) initial_state (pre @ line # post)
             = foldl (read_line rt) initial_state (pre @ post)"
    by simp
  then show "read_text rt (join [NEWLINE] (pre @ line # post)) = read_text rt (join [NEWLINE] (pre @ post))"
    using assms(4) by (simp add: read_text_lines')
next
  let ?st = "foldl (read_line rt) initial_state pre"
  let ?i = "length (cells ?st) - 1"
  let ?k = "length (contents (last (cells ?st)))"
  have step: "read_line rt st line = append_line line st" for st :: "'a reader_state"
    using assms(2,3) by (intro read_line_other) simp
  have inv: "current_is_last ?st"
    by (rule foldl_current_is_last) (simp add: current_is_last_def initial_state_def)
  assume "\<exists>l \<in> set pre. is_cell_directive l"
  then have cur: "current_cell ?st \<noteq> None"
    by (simp add: foldl_current)
  note a = append_line_inserted [OF inv cur]
  have "foldl (read_line rt) initial_state (pre @ line # post)
        = foldl (read_line rt) (append_line line ?st) post"
    by (simp add: step)
  also have "\<dots> = foldl (read_line rt)
                      (?st\<lparr> cells := insert_in_cell ?i ?k (line @ [NEWLINE]) (cells ?st) \<rparr>) post"
    by (simp only: a(1) [of line])
  also have "\<dots> = (foldl (read_line rt) ?st post)
             \<lparr> cells := insert_in_cell ?i ?k (line @ [NEWLINE]) (cells (foldl (read_line rt) ?st post)) \<rparr>"
    using a(2,3) by (rule read_lines_inserted)
  finally have fold: "foldl (read_line rt) initial_state (pre @ line # post)
        = (foldl (read_line rt) initial_state (pre @ post))
             \<lparr> cells := insert_in_cell ?i ?k (line @ [NEWLINE])
                          (cells (foldl (read_line rt) initial_state (pre @ post))) \<rparr>"
    by simp
  have pre: "read_text rt (join [NEWLINE] pre) = NotebookData.truncate ?st"
    using assms(4) by (intro read_text_lines') simp
  have without: "read_text rt (join [NEWLINE] (pre @ post))
                 = NotebookData.truncate (foldl (read_line rt) initial_state (pre @ post))"
    using assms(4) by (intro read_text_lines') simp
  have with_line: "read_text rt (join [NEWLINE] (pre @ line # post))
                 = NotebookData.truncate (foldl (read_line rt) initial_state (pre @ line # post))"
    using assms(4) by (intro read_text_lines') simp
  show "read_text rt (join [NEWLINE] (pre @ line # post))
            = (read_text rt (join [NEWLINE] (pre @ post)))
                \<lparr> cells :=
                    insert_in_cell (length (cells (read_text rt (join [NEWLINE] pre))) - 1)
                      (length (contents (last (cells (read_text rt (join [NEWLINE] pre))))))
                      (line @ [NEWLINE])
                      (cells (read_text rt (join [NEWLINE] (pre @ post)))) \<rparr>"
    unfolding pre without with_line fold
    by (simp add: NotebookData.truncate_def)
qed

theorem unrecognized_directive_line_witness:
  "directive_name ''@foo bar'' = directive_name_as_specified ''@foo bar''
   \<and> read_text example_rt (join [NEWLINE] [''@foo bar'', ''@cell code'', ''x = 1''])
     = read_text example_rt (join [NEWLINE] [''@cell code'', ''x = 1''])
   \<and> read_text example_rt (join [NEWLINE] [''@cell code'', ''@decorator'', ''def f(): pass''])
     = \<lparr> name = JStr [], properties = [],
         cells = [\<lparr> cell_type = JStr ''code'',
                    contents = ''@decorator'' @ [NEWLINE] @ ''def f(): pass'' @ [NEWLINE],
                    attributes = JList [] \<rparr>] \<rparr>"
proof (intro conjI)
  have a: "startswith ''@foo bar'' ''@''" by code_simp
  have b: "directive_name ''@foo bar'' \<noteq> ''cell''" by code_simp
  have c: "directive_name ''@foo bar'' \<noteq> ''meta''" by code_simp
  have e1: "\<forall>l \<in> set ([] @ ''@foo bar'' # [''@cell code'', ''x = 1'']). NEWLINE \<notin> set l" by simp
  note first = unrecognized_directive_line [OF a b c e1, of example_rt]
  from first show "directive_name ''@foo bar'' = directive_name_as_specified ''@foo bar''"
    by simp
  from first show "read_text example_rt (join [NEWLINE] [''@foo bar'', ''@cell code'', ''x = 1''])
     = read_text example_rt (join [NEWLINE] [''@cell code'', ''x = 1''])"
    by simp
  have a': "startswith ''@decorator'' ''@''" by code_simp
  have b': "directive_name ''@decorator'' \<noteq> ''cell''" by code_simp
  have c': "directive_name ''@decorator'' \<noteq> ''meta''" by code_simp
  have d': "is_cell_directive ''@cell code''" by code_simp
  have e2: "\<forall>l \<in> set ([''@cell code''] @ ''@decorator'' # [''def f(): pass'']). NEWLINE \<notin> set l"
    by simp
  have before: "read_text example_rt (join [NEWLINE] [''@cell code''])
      = \<lparr> name = JStr [], properties = [],
          cells = [\<lparr> cell_type = JStr ''code'', contents = [], attributes = JList [] \<rparr>] \<rparr>"
    by code_simp
  have without: "read_text example_rt (join [NEWLINE] [''@cell code'', ''def f(): pass''])
      = \<lparr> name = JStr [], properties = [],
          cells = [\<lparr> cell_type = JStr ''code'', contents = ''def f(): pass'' @ [NEWLINE],
                     attributes = JList [] \<rparr>] \<rparr>"
    by code_simp
  from unrecognized_directive_line [OF a' b' c' e2, of example_rt] d'
  show "read_text example_rt (join [NEWLINE] [''@cell code'', ''@decorator'', ''def f(): pass''])
     = \<lparr> name = JStr [], properties = [],
         cells = [\<lparr> cell_type = JStr ''code'',
                    contents = ''@decorator'' @ [NEWLINE] @ ''def f(): pass'' @ [NEWLINE],
                    attributes = JList [] \<rparr>] \<rparr>"
    by (simp add: before [simplified] without [simplified] insert_in_cell_def)
qed

theorem unrecognized_directive_line_counterexample:
  "read_text example_rt (join [NEWLINE] [''@cell code'', ''@foo bar''])
     = \<lparr> name = JStr [], properties = [],
         cells = [\<lparr> cell_type = JStr ''code'', contents = ''@foo bar'' @ [NEWLINE],
                    attributes = JList [] \<rparr>] \<rparr>
   \<and> read_text example_rt (join [NEWLINE] [''@cell code''])
     = \<lparr> name = JStr [], properties = [],
         cells = [\<lparr> cell_type = JStr ''code'', contents = [], attributes = JList [] \<rparr>] \<rparr>
   \<and> directive_name_as_specified ''@cells'' = ''cells''
   \<and> read_text example_rt (join [NEWLINE] [''@cell code'', ''@cells''])
     = \<lparr> name = JStr [], properties = [],
         cells = [\<lparr> cell_type = JStr ''code'', contents = [], attributes = JList [] \<rparr>,
                  \<lparr> cell_type = JStr [], contents = [], attributes = JList [] \<rparr>] \<rparr>"
  by code_simp

section \<open>The document writer\<close>

text \<open>
  C2. The claim: writing to a destination that does not exist succeeds, from a default
  skeleton document. The code calls a function that is not defined under the name
  used, so every such write raises NameError and writes nothing.
\<close>

theorem write_file_without_destination:
  "synapse_write_file rt (fs(dest_path := None)) dest_path nb_data
     = (Some (NameError ''_get_detault_notebook_data''), fs(dest_path := None))"
  by (simp add: synapse_write_file_def)

text \<open>
  C7. When the destination document exists and the write succeeds, the new content of
  the destination is the dump of a document that agrees with the old one at every path
  that is apart from the name, the recognized metadata paths and the cells path; no
  other file changes. In the example, the top-level field \<^verbatim>\<open>custom: 1\<close> is still there
  after \<^verbatim>\<open>push\<close>.
\<close>

theorem write_file_preserves_other_fields:
  assumes "fs dest_path = Some content"
    and "json_load rt content = Some file_data"
    and "synapse_write_file rt fs dest_path nb_data = (None, fs')"
  shows "\<exists>file_data'. fs' = fs(dest_path \<mapsto> json_dump rt file_data')
           \<and> (\<forall>p. (\<forall>w \<in> set written_paths. \<not> prefix w p \<and> \<not> prefix p w)
                  \<longrightarrow> lookup_path file_data' p = lookup_path file_data p)"
proof -
  from assms obtain file_data' where
    w: "write_document file_data nb_data = Inr file_data'"
    and f: "fs' = fs(dest_path \<mapsto> json_dump rt file_data')"
    by (auto simp: synapse_write_file_def split: sum.splits)
  have "lookup_path file_data' p = lookup_path file_data p"
    if "\<forall>w \<in> set written_paths. \<not> prefix w p \<and> \<not> prefix p w" for p
    using w that by (intro write_document_frame) (simp_all add: apart_def)
  with f show ?thesis by blast
qed

theorem write_file_preserves_other_fields_witness:
  "\<exists>file_data'.
     snd (push_notebook example_rt example_files ''nb.txt'' ''nb.json'') ''nb.json''
       = Some (json_dump example_rt file_data')
     \<and> lookup_path file_data' [''custom''] = Some (JInt 1)"
proof -
  let ?nb = "read_text example_rt (universal_newlines example_text)"
  have push: "push_notebook example_rt example_files ''nb.txt'' ''nb.json''
      = synapse_write_file example_rt example_files ''nb.json'' ?nb"
    by (simp add: push_notebook_def scratchpad_read_file_def example_files_def example_rt_def)
  obtain fs' where w: "synapse_write_file example_rt example_files ''nb.json'' ?nb = (None, fs')"
    using example_push unfolding push by (cases "synapse_write_file example_rt example_files ''nb.json'' ?nb") simp
  have l: "json_load example_rt ''doc'' = Some example_document"
    by (simp add: example_rt_def example_documents_def)
  have f: "example_files ''nb.json'' = Some ''doc''"
    by (simp add: example_files_def)
  from write_file_preserves_other_fields [OF f l w] obtain file_data' where
    d: "fs' = example_files(''nb.json'' \<mapsto> json_dump example_rt file_data')"
      "\<forall>p. (\<forall>w \<in> set written_paths. \<not> prefix w p \<and> \<not> prefix p w)
                  \<longrightarrow> lookup_path file_data' p = lookup_path example_document p"
    by blast
  have "\<forall>w \<in> set written_paths. \<not> prefix w [''custom''] \<and> \<not> prefix [''custom''] w"
    by (simp add: written_paths_def)
  with d(2) have "lookup_path file_data' [''custom''] = lookup_path example_document [''custom'']"
    by blast
  then have "lookup_path file_data' [''custom''] = Some (JInt 1)"
    by (simp add: example_document_def)
  with d(1) show ?thesis unfolding push w by auto
qed

section \<open>The orchestrator\<close>

text \<open>
  C8. \<^verbatim>\<open>push\<close> raises the program's own error exactly when the text file does not
  exist at its absolute path, and \<^verbatim>\<open>pull\<close> exactly when the document file does not
  exist at its absolute path. The message carries the absolute path, and the files are
  left as they were.
\<close>

theorem not_found_only_for_missing_source:
  "((\<exists>msg. fst (push_notebook rt fs location src) = Some (WorkbenchError msg))
      \<longleftrightarrow> fs (abspath rt location) = None)
   \<and> (fs (abspath rt location) = None \<longrightarrow>
        push_notebook rt fs location src
          = (Some (WorkbenchError (''File not found '' @ [CHR 0x27] @ abspath rt location @ [CHR 0x27])), fs))
   \<and> ((\<exists>msg. fst (pull_notebook rt fs location src) = Some (WorkbenchError msg))
      \<longleftrightarrow> fs (abspath rt src) = None)
   \<and> (fs (abspath rt src) = None \<longrightarrow>
        pull_notebook rt fs location src
          = (Some (WorkbenchError (''File not found '' @ [CHR 0x27] @ abspath rt src @ [CHR 0x27])), fs))"
proof -
  have push_missing: "push_notebook rt fs location src = (Some (not_found (abspath rt location)), fs)"
    if "fs (abspath rt location) = None"
    using that by (simp add: push_notebook_def Let_def)
  have pull_missing: "pull_notebook rt fs location src = (Some (not_found (abspath rt src)), fs)"
    if "fs (abspath rt src) = None"
    using that by (simp add: pull_notebook_def Let_def)
  have push_present: "builtin_error e"
    if "fs (abspath rt location) \<noteq> None" "fst (push_notebook rt fs location src) = Some e" for e
    using that
    by (auto simp: push_notebook_def Let_def split: sum.splits
        dest: scratchpad_read_file_builtin synapse_write_file_builtin)
  have pull_present: "builtin_error e"
    if "fs (abspath rt src) \<noteq> None" "fst (pull_notebook rt fs location src) = Some e" for e
    using that
    by (auto simp: pull_notebook_def Let_def split: sum.splits
        dest: synapse_read_file_builtin scratchpad_write_file_builtin)
  show ?thesis
  proof (intro conjI impI iffI)
    assume "\<exists>msg. fst (push_notebook rt fs location src) = Some (WorkbenchError msg)"
    then show "fs (abspath rt location) = None"
      using push_present by fastforce
  next
    assume "fs (abspath rt location) = None"
    then show "\<exists>msg. fst (push_notebook rt fs location src) = Some (WorkbenchError msg)"
      by (simp add: push_missing not_found_def)
  next
    assume "fs (abspath rt location) = None"
    then show "push_notebook rt fs location src
          = (Some (WorkbenchError (''File not found '' @ [CHR 0x27] @ abspath rt location @ [CHR 0x27])), fs)"
      by (simp add: push_missing not_found_def)
  next
    assume "\<exists>msg. fst (pull_notebook rt fs location src) = Some (WorkbenchError msg)"
    then show "fs (abspath rt src) = None"
      using pull_present by fastforce
  next
    assume "fs (abspath rt src) = None"
    then show "\<exists>msg. fst (pull_notebook rt fs location src) = Some (WorkbenchError msg)"
      by (simp add: pull_missing not_found_def)
  next
    assume "fs (abspath rt src) = None"
    then show "pull_notebook rt fs location src
          = (Some (WorkbenchError (''File not found '' @ [CHR 0x27] @ abspath rt src @ [CHR 0x27])), fs)"
      by (simp add: pull_missing not_found_def)
  qed
qed

theorem not_found_only_for_missing_source_witness:
  "pull_notebook example_rt (Map.empty(''nb.txt'' \<mapsto> ''@cell code'')) ''nb.txt'' ''nb.json''
     = (Some (WorkbenchError (''File not found '' @ [CHR 0x27] @ ''nb.json'' @ [CHR 0x27])),
        Map.empty(''nb.txt'' \<mapsto> ''@cell code''))
   \<and> push_notebook example_rt (Map.empty(''nb.json'' \<mapsto> ''doc'')) ''nb.txt'' ''nb.json''
     = (Some (WorkbenchError (''File not found '' @ [CHR 0x27] @ ''nb.txt'' @ [CHR 0x27])),
        Map.empty(''nb.json'' \<mapsto> ''doc''))
   \<and> (\<forall>msg. fst (push_notebook example_rt (Map.empty(''nb.txt'' \<mapsto> ''@cell code'')) ''nb.txt'' ''nb.json'')
          \<noteq> Some (WorkbenchError msg))"
  using not_found_only_for_missing_source
      [of example_rt "Map.empty(''nb.txt'' \<mapsto> ''@cell code'')" "''nb.txt''" "''nb.json''"]
    not_found_only_for_missing_source
      [of example_rt "Map.empty(''nb.json'' \<mapsto> ''doc'')" "''nb.txt''" "''nb.json''"]
  by (simp add: example_rt_def)

section \<open>The round trip\<close>




end
